theory Spec2Isabelle
  imports Main "HOL-Library.AList" "HOL-Library.Sublist"
begin

section \<open>JavaScript values used by the patches\<close>

text \<open>
  Exceptions are values: \<open>TypeError\<close> is what the runtime raises when a property of
  \<open>undefined\<close> or \<open>null\<close> is read or called; \<open>Thrown msg\<close> stands for any
  exception a user-supplied callback or the wrapped library function throws.
  An operation that may throw returns \<open>error + 'a\<close>, with \<open>Inl\<close> the exception.
\<close>

datatype error = TypeError | Thrown string

text \<open>
  Strings are lists of 8-bit characters (code units below 256). A plain object with
  string keys is an association list in insertion order; \<open>obj[k] = v\<close> is
  \<open>AList.update k v obj\<close> (an existing key keeps its place, a new key goes last) and
  reading \<open>obj[k]\<close> is \<open>map_of obj k\<close>, with \<open>None\<close> for \<open>undefined\<close>.
\<close>

type_synonym 'v obj = "(string \<times> 'v) list"

subsection \<open>String primitives\<close>

text \<open>The white space and line terminator code units below 256 (removed by \<open>trimStart\<close>).\<close>

definition isWhiteSpace :: "char \<Rightarrow> bool" where
  "isWhiteSpace c \<longleftrightarrow>
     c \<in> set [CHR 0x09, CHR 0x0A, CHR 0x0B, CHR 0x0C, CHR 0x0D, CHR 0x20, CHR 0xA0]"

definition trimStart :: "string \<Rightarrow> string" where
  "trimStart s = dropWhile isWhiteSpace s"

text \<open>\<open>s.split(sep)\<close> for a one-character separator: never empty, \<open>''''.split(sep) = ['''']\<close>.\<close>

fun split_on :: "char \<Rightarrow> string \<Rightarrow> string list" where
  "split_on sep [] = [[]]"
| "split_on sep (c # cs) =
     (if c = sep then [] # split_on sep cs
      else (case split_on sep cs of
              [] \<Rightarrow> [[c]]
            | p # ps \<Rightarrow> (c # p) # ps))"

text \<open>\<open>s.split(sep, limit)\<close>: the string is split everywhere and the array is cut to
  \<open>limit\<close> entries; the text after the \<open>limit\<close>-th piece is dropped.\<close>

definition split_limit :: "string \<Rightarrow> char \<Rightarrow> nat \<Rightarrow> string list" where
  "split_limit s sep lim = take lim (split_on sep s)"

text \<open>\<open>Object.fromEntries\<close>: the entries are assigned in order, a later duplicate wins.\<close>

definition fromEntries :: "(string \<times> 'v) list \<Rightarrow> 'v obj" where
  "fromEntries es = foldl (\<lambda>ob (k, v). AList.update k v ob) [] es"

text \<open>Mapping a function that may throw over an array: the first exception ends it.\<close>

fun map_throwing :: "('a \<Rightarrow> error + 'b) \<Rightarrow> 'a list \<Rightarrow> error + 'b list" where
  "map_throwing f [] = Inr []"
| "map_throwing f (x # xs) =
     (case f x of
        Inl e \<Rightarrow> Inl e
      | Inr y \<Rightarrow> (case map_throwing f xs of Inl e \<Rightarrow> Inl e | Inr ys \<Rightarrow> Inr (y # ys)))"

section \<open>patch-user-agent: header normalization\<close>

text \<open>
  One header of the list, \<open>header.split(':', 2)\<close> destructured as \<open>[name, val]\<close> and
  mapped to \<open>[name, val.trimStart()]\<close>. A header without a colon leaves \<open>val\<close>
  undefined, and \<open>val.trimStart()\<close> raises a TypeError.
\<close>

definition headerEntry :: "string \<Rightarrow> error + (string \<times> string)" where
  "headerEntry header =
     (case split_limit header (CHR '':'') 2 of
        name # val # _ \<Rightarrow> Inr (name, trimStart val)
      | _ \<Rightarrow> Inl TypeError)"

text \<open>The conversion of a header array (wrapResolveRequest, the body of
  \<open>if (headers instanceof Array)\<close>).\<close>

definition normalizeHeaders :: "string list \<Rightarrow> error + string obj" where
  "normalizeHeaders hs =
     (case map_throwing headerEntry hs of
        Inl e \<Rightarrow> Inl e
      | Inr es \<Rightarrow> Inr (fromEntries es))"

section \<open>patch-rest: the parameterized route matcher\<close>

subsection \<open>String operations of the matcher\<close>

abbreviation bslash :: char where
  "bslash \<equiv> CHR 0x5C"

definition startsWith :: "string \<Rightarrow> string \<Rightarrow> bool" where
  "startsWith s p \<longleftrightarrow> take (length p) s = p"

text \<open>\<open>s.indexOf(pat)\<close>: the first index where \<open>pat\<close> occurs, or \<open>-1\<close>.\<close>

fun indexOf :: "string \<Rightarrow> string \<Rightarrow> int" where
  "indexOf [] pat = (if pat = [] then 0 else - 1)"
| "indexOf (c # cs) pat =
     (if startsWith (c # cs) pat then 0
      else (let i = indexOf cs pat in if i < 0 then - 1 else i + 1))"

text \<open>\<open>s.substring(a, b)\<close>: both indices are clamped to \<open>[0, length]\<close> (so \<open>-1\<close>
  counts as \<open>0\<close>) and swapped when \<open>a > b\<close>.\<close>

definition substring :: "string \<Rightarrow> int \<Rightarrow> int \<Rightarrow> string" where
  "substring s a b =
     (let n = int (length s);
          a' = min (max a 0) n;
          b' = min (max b 0) n;
          lo = min a' b';
          hi = max a' b'
      in take (nat (hi - lo)) (drop (nat lo) s))"

text \<open>The character class \<open>[a-z]\<close>.\<close>

definition isLower :: "char \<Rightarrow> bool" where
  "isLower c \<longleftrightarrow> (97::nat) \<le> of_char c \<and> of_char c \<le> (122::nat)"

text \<open>The character class \<open>[.*+?^${}()|[\]\\]\<close> of \<open>escapeRegExp\<close>; these are exactly
  the syntax characters of a regular expression.\<close>

definition isSyntaxChar :: "char \<Rightarrow> bool" where
  "isSyntaxChar c \<longleftrightarrow>
     c \<in> set [CHR ''.'', CHR ''*'', CHR ''+'', CHR ''?'', CHR ''^'', CHR ''$'', CHR ''{'',
              CHR ''}'', CHR ''('', CHR '')'', CHR ''|'', CHR ''['', CHR '']'', bslash]"

text \<open>\<open>string.replace(/[.*+?^${}()|[\]\\]/g, '\\$&')\<close>: a backslash goes in front of
  every syntax character.\<close>

fun escapeRegExp :: "string \<Rightarrow> string" where
  "escapeRegExp [] = []"
| "escapeRegExp (c # cs) =
     (if isSyntaxChar c then bslash # c # escapeRegExp cs else c # escapeRegExp cs)"

subsection \<open>The three regular expressions of testParameterizedMatch\<close>

text \<open>
  \<open>REGEX_PARAMETER = /\{:[a-z]+\}/\<close> tried at the start of \<open>s\<close>: the text after the
  match, if there is one. The run \<open>[a-z]+\<close> is greedy and \<open>}\<close> is not a lower-case
  letter, so the match, when it exists, takes the whole run of letters.
\<close>

definition param_at :: "string \<Rightarrow> string option" where
  "param_at s =
     (if startsWith s ''{:'' then
        (let body = drop 2 s;
             name = takeWhile isLower body;
             rest = dropWhile isLower body
         in if name \<noteq> [] \<and> startsWith rest ''}'' then Some (drop 1 rest) else None)
      else None)"

text \<open>\<open>REGEX_PARAMETER.test(key)\<close>: a match at some position.\<close>

fun REGEX_PARAMETER_test :: "string \<Rightarrow> bool" where
  "REGEX_PARAMETER_test [] = False"
| "REGEX_PARAMETER_test (c # cs) = (param_at (c # cs) \<noteq> None \<or> REGEX_PARAMETER_test cs)"

text \<open>\<open>/\\\{:[a-z]+\\\}/\<close> tried at the start of \<open>s\<close>: an escaped placeholder, that is
  backslash, \<open>{:\<close>, letters, backslash, \<open>}\<close>.\<close>

definition escaped_param_at :: "string \<Rightarrow> string option" where
  "escaped_param_at s =
     (if startsWith s [bslash, CHR ''{'', CHR '':''] then
        (let body = drop 3 s;
             name = takeWhile isLower body;
             rest = dropWhile isLower body
         in if name \<noteq> [] \<and> startsWith rest [bslash, CHR ''}''] then Some (drop 2 rest)
            else None)
      else None)"

text \<open>\<open>keyEscaped.replace(/\\\{:[a-z]+\\\}/g, '[^/]+')\<close>: every match, left to right and
  not overlapping, is replaced.\<close>

function replaceEscapedParams :: "string \<Rightarrow> string" where
  "replaceEscapedParams [] = []"
| "replaceEscapedParams (c # cs) =
     (case escaped_param_at (c # cs) of
        Some rest \<Rightarrow> ''[^/]+'' @ replaceEscapedParams rest
      | None \<Rightarrow> c # replaceEscapedParams cs)"
  by pat_completeness auto
termination
proof (relation "measure length", goal_cases)
  case 1
  show ?case by simp
next
  case (2 c cs)
  show ?case by simp
next
  case (3 c cs rest)
  have "length (dropWhile isLower (drop 2 cs)) \<le> length cs"
    using length_dropWhile_le [of isLower "drop 2 cs"] by simp
  with 3 show ?case
    by (auto simp: escaped_param_at_def Let_def split: if_splits)
qed

subsection \<open>The regular expressions the matcher can build\<close>

text \<open>
  The pattern handed to \<open>new RegExp\<close> is read as a sequence of atoms: an escaped syntax
  character (an identity escape, matching that character), the class \<open>[^/]\<close> under
  \<open>+\<close>, or a character that is not a syntax character (matching itself). Any other
  pattern is outside this fragment and is reported as \<open>None\<close>.
\<close>

datatype rx = RChar char | RNotSlashPlus

fun parse_regex :: "string \<Rightarrow> rx list option" where
  "parse_regex [] = Some []"
| "parse_regex (c # cs) =
     (if c = bslash then
        (case cs of
           [] \<Rightarrow> None
         | d # ds \<Rightarrow>
             if isSyntaxChar d then map_option ((#) (RChar d)) (parse_regex ds) else None)
      else if startsWith (c # cs) ''[^/]+'' then
        map_option ((#) RNotSlashPlus) (parse_regex (drop 4 cs))
      else if isSyntaxChar c then None
      else map_option ((#) (RChar c)) (parse_regex cs))"

text \<open>
  Matching a sequence of atoms at the start of \<open>s\<close>. \<open>[^/]+\<close> takes one or more
  characters other than \<open>/\<close>, the longest run first, and gives characters back until
  the rest of the pattern matches (backtracking).
\<close>

fun rx_match_prefix :: "rx list \<Rightarrow> string \<Rightarrow> bool" where
  "rx_match_prefix [] s = True"
| "rx_match_prefix (RChar c # ts) s =
     (case s of [] \<Rightarrow> False | d # ds \<Rightarrow> d = c \<and> rx_match_prefix ts ds)"
| "rx_match_prefix (RNotSlashPlus # ts) s =
     list_ex (\<lambda>n. rx_match_prefix ts (drop n s))
       (rev [1 ..< Suc (length (takeWhile (\<lambda>d. d \<noteq> CHR ''/'') s))])"

text \<open>\<open>new RegExp(src).test(s)\<close> for a pattern that starts with the anchor \<open>^\<close> and has
  no flags: the atoms must match at index 0.\<close>

definition RegExp_test :: "string \<Rightarrow> string \<Rightarrow> bool option" where
  "RegExp_test src s =
     (case src of
        [] \<Rightarrow> None
      | c # body \<Rightarrow>
          if c = CHR ''^'' then map_option (\<lambda>r. rx_match_prefix r s) (parse_regex body)
          else None)"

subsection \<open>testParameterizedMatch\<close>

definition testParameterizedMatch :: "string \<Rightarrow> string \<Rightarrow> bool option" where
  "testParameterizedMatch route key =
     (if \<not> REGEX_PARAMETER_test key then Some False
      else if \<not> startsWith key (substring route 0 (indexOf route ''{:'')) then Some False
      else (let keyEscaped = escapeRegExp key;
                keyRegex = ''^'' @ replaceEscapedParams keyEscaped
            in RegExp_test keyRegex route))"

subsection \<open>The matcher as the specification words it\<close>

text \<open>
  A route template is a sequence of literal characters and \<open>{:name}\<close> placeholders
  (a name is one or more lower-case letters), read from left to right. A path is an
  instance of the template when it arises by replacing every placeholder with one or
  more characters other than \<open>/\<close>; the template matches a concrete path as a prefix
  when some instance is a prefix of the path.
\<close>

datatype seg = Lit char | Placeholder

function template_segs :: "string \<Rightarrow> seg list" where
  "template_segs [] = []"
| "template_segs (c # cs) =
     (case param_at (c # cs) of
        Some rest \<Rightarrow> Placeholder # template_segs rest
      | None \<Rightarrow> Lit c # template_segs cs)"
  by pat_completeness auto
termination
proof (relation "measure length", goal_cases)
  case 1
  show ?case by simp
next
  case (2 c cs)
  show ?case by simp
next
  case (3 c cs rest)
  have "length (dropWhile isLower (drop 1 cs)) \<le> length cs"
    using length_dropWhile_le [of isLower "drop 1 cs"] by simp
  with 3 show ?case
    by (auto simp: param_at_def Let_def split: if_splits)
qed

inductive instance_of :: "seg list \<Rightarrow> string \<Rightarrow> bool" where
  inst_Nil: "instance_of [] []"
| inst_Lit: "instance_of ts w \<Longrightarrow> instance_of (Lit c # ts) (c # w)"
| inst_Placeholder:
    "v \<noteq> [] \<Longrightarrow> CHR ''/'' \<notin> set v \<Longrightarrow> instance_of ts w \<Longrightarrow>
     instance_of (Placeholder # ts) (v @ w)"

definition template_matches_prefix :: "string \<Rightarrow> string \<Rightarrow> bool" where
  "template_matches_prefix key route \<longleftrightarrow>
     (\<exists>p. prefix p route \<and> instance_of (template_segs key) p)"

text \<open>The atom of the compiled pattern that stands for a template segment.\<close>

fun rx_of :: "seg \<Rightarrow> rx" where
  "rx_of (Lit c) = RChar c"
| "rx_of Placeholder = RNotSlashPlus"

section \<open>patch-rest: the REST interceptor\<close>

subsection \<open>Requests, responses and resolved requests\<close>

text \<open>Response bodies and gateway payload data are JSON values; numbers are integers.\<close>

datatype json =
    JNull
  | JBool bool
  | JNum int
  | JStr string
  | JArr "json list"
  | JObj "(string \<times> json) list"

text \<open>The request options (\<open>InternalRequest\<close>); \<open>fullRoute\<close> is the concrete route.\<close>

record RestRequest =
  fullRoute :: string
  request_method :: string
  body :: "json option"

text \<open>
  The header value of a resolved request is a JavaScript object that the hooks mutate
  in place, so it lives in a store: an address is an index into the list of the
  objects allocated so far, and a new object goes to the end. A header value is either
  an array of \<open>"Name: value"\<close> strings or an object from names to values.
\<close>

datatype header_value = HeaderArray "string list" | HeaderObject "string obj"

type_synonym ref = nat

type_synonym store = "header_value list"

definition deref :: "store \<Rightarrow> ref \<Rightarrow> header_value option" where
  "deref st r = (if r < length st then Some (st ! r) else None)"

definition alloc :: "store \<Rightarrow> header_value \<Rightarrow> ref \<times> store" where
  "alloc st v = (length st, st @ [v])"

text \<open>The resolved request \<open>{ url, fetchOptions }\<close>; \<open>headers\<close> is
  \<open>fetchOptions.headers\<close>, a reference into the store, or \<open>None\<close> for
  \<open>null\<close>/\<open>undefined\<close>.\<close>

record Resolved =
  url :: string
  headers :: "ref option"
  fetch_method :: string
  fetch_body :: "string option"

text \<open>A route patch; \<open>'c\<close> is the client handed to every callback. A callback returns
  \<open>Inl\<close> when it throws.\<close>

record 'c RoutePatch =
  redirect :: "string option"
  pre :: "('c \<Rightarrow> RestRequest \<Rightarrow> error + RestRequest) option"
  post :: "('c \<Rightarrow> RestRequest \<Rightarrow> json \<Rightarrow> error + json) option"
  resolve :: "('c \<Rightarrow> RestRequest \<Rightarrow> Resolved \<Rightarrow> store \<Rightarrow> error + Resolved \<times> store) option"

text \<open>The route map \<open>client.patches.rest.routes\<close>: a \<open>Map\<close>, kept as its entries in
  insertion order.\<close>

type_synonym 'c routes = "(string \<times> 'c RoutePatch) list"

subsection \<open>Patch lookup\<close>

text \<open>The loop over \<open>routes.entries()\<close>: the value of the first entry whose key
  passes \<open>testParameterizedMatch(route, key)\<close>.\<close>

fun firstParameterized :: "string \<Rightarrow> (string \<times> 'p) list \<Rightarrow> 'p option" where
  "firstParameterized route [] = None"
| "firstParameterized route ((key, val) # es) =
     (if testParameterizedMatch route key = Some True then Some val
      else firstParameterized route es)"

text \<open>\<open>routes.get(route)\<close>, then the loop when that is undefined. The source has these
  lines twice, in \<open>patchRequest\<close> and in \<open>patchResolveRequest\<close>.\<close>

definition findPatch :: "(string \<times> 'p) list \<Rightarrow> string \<Rightarrow> 'p option" where
  "findPatch routes route =
     (case map_of routes route of
        Some patch \<Rightarrow> Some patch
      | None \<Rightarrow> firstParameterized route routes)"

subsection \<open>patchRequest\<close>

text \<open>\<open>if (patch?.redirect) options.fullRoute = patch.redirect\<close>; an empty string
  counts as no redirect. The source assigns to the caller's object; here the changed
  options are the value passed on.\<close>

definition redirected :: "'c RoutePatch option \<Rightarrow> RestRequest \<Rightarrow> RestRequest" where
  "redirected patch options =
     (case Option.bind patch redirect of
        Some target \<Rightarrow> if target \<noteq> [] then options\<lparr>fullRoute := target\<rparr> else options
      | None \<Rightarrow> options)"

text \<open>\<open>if (patch?.pre) options = patch.pre(client, options)\<close>.\<close>

definition applyPre :: "'c \<Rightarrow> 'c RoutePatch option \<Rightarrow> RestRequest \<Rightarrow> error + RestRequest" where
  "applyPre client patch options =
     (case Option.bind patch pre of
        Some f \<Rightarrow> f client options
      | None \<Rightarrow> Inr options)"

text \<open>The wrapper of \<open>client.rest.request\<close>; \<open>original\<close> is the wrapped function, and a
  rejected promise is \<open>Inl\<close>.\<close>

definition patchRequest ::
  "'c \<Rightarrow> 'c routes \<Rightarrow> (RestRequest \<Rightarrow> error + json) \<Rightarrow> RestRequest \<Rightarrow> error + json" where
  "patchRequest client routes original options =
     (let route = fullRoute options;
          patch = findPatch routes route
      in case applyPre client patch (redirected patch options) of
           Inl e \<Rightarrow> Inl e
         | Inr options2 \<Rightarrow>
             (case original options2 of
                Inl e \<Rightarrow> Inl e
              | Inr result \<Rightarrow>
                  (case Option.bind patch post of
                     Some g \<Rightarrow> g client options2 result
                   | None \<Rightarrow> Inr result)))"

subsection \<open>patchResolveRequest\<close>

text \<open>\<open>original\<close> is the wrapped \<open>requestManager.resolveRequest\<close>; it returns the
  resolved request and the store with the header value it built.\<close>

type_synonym resolver = "RestRequest \<Rightarrow> store \<Rightarrow> error + Resolved \<times> store"

definition patchResolveRequest :: "'c \<Rightarrow> 'c routes \<Rightarrow> resolver \<Rightarrow> resolver" where
  "patchResolveRequest client routes original options st =
     (let route = fullRoute options;
          patch = findPatch routes route
      in case original options st of
           Inl e \<Rightarrow> Inl e
         | Inr (result, st1) \<Rightarrow>
             (case Option.bind patch resolve of
                Some h \<Rightarrow> h client options result st1
              | None \<Rightarrow> Inr (result, st1)))"

section \<open>patch-user-agent: wrapResolveRequest\<close>

text \<open>
  The local variable \<open>headers\<close> starts as \<open>result.fetchOptions.headers\<close>. When that
  is an array, the variable is reassigned to the new object built by
  \<open>Object.fromEntries\<close>; nothing is assigned to \<open>result.fetchOptions.headers\<close>.
\<close>

definition normalizeStep :: "store \<Rightarrow> ref option \<Rightarrow> error + ref option \<times> store" where
  "normalizeStep st hdrs =
     (case hdrs of
        None \<Rightarrow> Inr (None, st)
      | Some r \<Rightarrow>
          (case deref st r of
             Some (HeaderArray hs) \<Rightarrow>
               (case normalizeHeaders hs of
                  Inl e \<Rightarrow> Inl e
                | Inr ob \<Rightarrow> (case alloc st (HeaderObject ob) of (r', st') \<Rightarrow> Inr (Some r', st')))
           | _ \<Rightarrow> Inr (hdrs, st)))"

text \<open>\<open>headers['User-Agent'] = client.patches.userAgent.value\<close> when the variable
  refers to an object that is not an array: the object it refers to is updated in
  place.\<close>

definition injectStep :: "string \<Rightarrow> store \<Rightarrow> ref option \<Rightarrow> store" where
  "injectStep userAgent st hdrs =
     (case hdrs of
        None \<Rightarrow> st
      | Some r \<Rightarrow>
          (case deref st r of
             Some (HeaderObject ob) \<Rightarrow>
               st[r := HeaderObject (AList.update ''User-Agent'' userAgent ob)]
           | _ \<Rightarrow> st))"

text \<open>The wrapper; \<open>userAgent\<close> is \<open>client.patches.userAgent.value\<close> at the time of
  the call. It returns \<open>result\<close>, the object the wrapped function returned.\<close>

definition wrapResolveRequest :: "string \<Rightarrow> resolver \<Rightarrow> resolver" where
  "wrapResolveRequest userAgent original options st =
     (case original options st of
        Inl e \<Rightarrow> Inl e
      | Inr (result, st1) \<Rightarrow>
          (case normalizeStep st1 (headers result) of
             Inl e \<Rightarrow> Inl e
           | Inr (hdrs, st2) \<Rightarrow> Inr (result, injectStep userAgent st2 hdrs)))"

text \<open>
  \<open>userbot\<close> installs \<open>Rest\<close> before \<open>UserAgent\<close>, so the user-agent wrapper is the
  outer one: it calls the REST wrapper, which calls the library's function.
\<close>

definition resolveRequest_installed :: "'c \<Rightarrow> 'c routes \<Rightarrow> string \<Rightarrow> resolver \<Rightarrow> resolver" where
  "resolveRequest_installed client routes userAgent original =
     wrapResolveRequest userAgent (patchResolveRequest client routes original)"

text \<open>The header value a resolved request carries, read through the store.\<close>

definition emitted_headers :: "Resolved \<times> store \<Rightarrow> header_value option" where
  "emitted_headers rs = (case headers (fst rs) of None \<Rightarrow> None | Some r \<Rightarrow> deref (snd rs) r)"

section \<open>patch-rest: the default route patches\<close>

text \<open>Modelled from the spec: the route strings that \<open>Routes.gatewayBot()\<close> and
  \<open>Routes.gateway()\<close> return; \<open>Routes\<close> is declared in discord.js, outside the
  sources. The specification names them \<open>/gateway/bot\<close> and \<open>/gateway\<close>.\<close>

definition Routes_gatewayBot :: string where
  "Routes_gatewayBot = ''/gateway/bot''"

definition Routes_gateway :: string where
  "Routes_gateway = ''/gateway''"

text \<open>The decimal form of an array index, as a property key.\<close>

fun showNat :: "nat \<Rightarrow> string" where
  "showNat n =
     (if n < 10 then [char_of (48 + n)]
      else showNat (n div 10) @ [char_of (48 + n mod 10)])"

text \<open>The own enumerable properties that an object spread \<open>...value\<close> copies: the
  entries of an object, the indexed elements of an array or string, nothing for
  \<open>null\<close>, a number or a boolean.\<close>

fun ownEntries :: "json \<Rightarrow> (string \<times> json) list" where
  "ownEntries (JObj kvs) = kvs"
| "ownEntries (JArr xs) = zip (map showNat [0 ..< length xs]) xs"
| "ownEntries (JStr cs) = zip (map showNat [0 ..< length cs]) (map (\<lambda>c. JStr [c]) cs)"
| "ownEntries _ = []"

definition spread :: "json obj \<Rightarrow> json \<Rightarrow> json obj" where
  "spread base v = foldl (\<lambda>ob (k, x). AList.update k x ob) base (ownEntries v)"

text \<open>The \<open>post\<close> callback of the gateway-bot route:
  \<open>({ shards: 1, session_start_limit: {...}, ...res })\<close>.\<close>

definition gatewayBot_post :: "'c \<Rightarrow> RestRequest \<Rightarrow> json \<Rightarrow> error + json" where
  "gatewayBot_post client req res =
     Inr (JObj (spread
       [(''shards'', JNum 1),
        (''session_start_limit'',
           JObj [(''total'', JNum 1), (''remaining'', JNum 1),
                 (''reset_after'', JNum 14400000), (''max_concurrency'', JNum 1)])]
       res))"

text \<open>\<open>value.replace(/^Bearer /, '')\<close>.\<close>

definition stripBearer :: "string \<Rightarrow> string" where
  "stripBearer v = (if startsWith v ''Bearer '' then drop 7 v else v)"

text \<open>
  The \<open>resolve\<close> callback of \<open>/users/{:id}/\<close>. \<open>headers['Authorization']\<close> is
  undefined when the header value is an array or an object without that key, and
  calling \<open>.replace\<close> on it raises a TypeError, as does reading a property of a
  \<open>null\<close> header value. Otherwise the object is updated in place and \<open>resolved\<close> is
  returned.
\<close>

definition users_resolve :: "'c \<Rightarrow> RestRequest \<Rightarrow> Resolved \<Rightarrow> store \<Rightarrow> error + Resolved \<times> store" where
  "users_resolve client req resolved st =
     (case headers resolved of
        None \<Rightarrow> Inl TypeError
      | Some r \<Rightarrow>
          (case deref st r of
             Some (HeaderObject ob) \<Rightarrow>
               (case map_of ob ''Authorization'' of
                  None \<Rightarrow> Inl TypeError
                | Some v \<Rightarrow>
                    Inr (resolved,
                         st[r := HeaderObject (AList.update ''Authorization'' (stripBearer v) ob)]))
           | _ \<Rightarrow> Inl TypeError))"

definition DEFAULT_ROUTE_PATCHES :: "'c routes" where
  "DEFAULT_ROUTE_PATCHES =
     [(Routes_gatewayBot,
         \<lparr>redirect = Some Routes_gateway, pre = None, post = Some gatewayBot_post,
          resolve = None\<rparr>),
      (''/users/{:id}/'',
         \<lparr>redirect = None, pre = None, post = None, resolve = Some users_resolve\<rparr>)]"

text \<open>\<open>new Map(Object.entries(DEFAULT_ROUTE_PATCHES))\<close>: the entries in the order they
  are written.\<close>

definition createDefaults :: "'c routes" where
  "createDefaults = DEFAULT_ROUTE_PATCHES"

section \<open>patch-gateway: the gateway interceptor\<close>

text \<open>The opcodes of a gateway frame (the enum \<open>GatewayOpcodes\<close>).\<close>

datatype GatewayOpcodes =
    Dispatch | Heartbeat | Identify | PresenceUpdate | VoiceStateUpdate | Resume
  | Reconnect | RequestGuildMembers | InvalidSession | Hello | HeartbeatAck

text \<open>The \<open>t\<close> field of a payload: missing, \<open>null\<close>, or an event name.\<close>

datatype t_field = T_absent | T_null | T_name string

text \<open>Reading \<open>events[event]\<close> turns the value into a property key: a missing \<open>t\<close> is
  read as \<open>undefined\<close> and looks up the key \<open>"undefined"\<close>, \<open>null\<close> looks up
  \<open>"null"\<close>, and a name looks up itself.\<close>

fun propertyKey :: "t_field \<Rightarrow> string" where
  "propertyKey T_absent = ''undefined''"
| "propertyKey T_null = ''null''"
| "propertyKey (T_name name) = name"

text \<open>A gateway payload \<open>{ op, d, s, t }\<close>. A payload object without an \<open>op\<close> key has
  \<open>payload_op = None\<close>; \<open>payload_t\<close> is its \<open>t\<close> field, the event name of a dispatch
  payload. A frame that is \<open>null\<close>, \<open>undefined\<close> or not an object is \<open>None\<close>.\<close>

record Payload =
  payload_op :: "GatewayOpcodes option"
  payload_d :: json
  payload_s :: "int option"
  payload_t :: t_field

type_synonym frame = "Payload option"

record 'c GatewayPacketPatch =
  inbound :: "('c \<Rightarrow> Payload \<Rightarrow> error + Payload) option"
  outbound :: "('c \<Rightarrow> Payload \<Rightarrow> error + Payload) option"

record 'c GatewayEventPatch =
  event_inbound :: "('c \<Rightarrow> Payload \<Rightarrow> error + Payload) option"

text \<open>\<open>client.patches.gateway\<close>: the packet patches by opcode and the event patches by
  event name.\<close>

record 'c GatewayConfig =
  packets :: "GatewayOpcodes \<rightharpoonup> 'c GatewayPacketPatch"
  events :: "string \<rightharpoonup> 'c GatewayEventPatch"

subsection \<open>patchShardOutbound\<close>

text \<open>The frame that the wrapper of \<open>shard.send\<close> hands on.\<close>

definition outboundData :: "'c \<Rightarrow> 'c GatewayConfig \<Rightarrow> frame \<Rightarrow> error + frame" where
  "outboundData client cfg data =
     (case data of
        None \<Rightarrow> Inr data
      | Some p \<Rightarrow>
          (case payload_op p of
             None \<Rightarrow> Inr data
           | Some opcode \<Rightarrow>
               (case Option.bind (packets cfg opcode) outbound of
                  Some f \<Rightarrow> (case f client p of Inl e \<Rightarrow> Inl e | Inr p' \<Rightarrow> Inr (Some p'))
                | None \<Rightarrow> Inr data)))"

text \<open>The wrapper of \<open>shard.send\<close>; \<open>original\<close> is the wrapped function.\<close>

definition patchShardOutbound :: "'c \<Rightarrow> 'c GatewayConfig \<Rightarrow> (frame \<Rightarrow> 'r) \<Rightarrow> frame \<Rightarrow> error + 'r" where
  "patchShardOutbound client cfg original data =
     (case outboundData client cfg data of
        Inl e \<Rightarrow> Inl e
      | Inr data' \<Rightarrow> Inr (original data'))"

subsection \<open>patchShardInbound\<close>

text \<open>
  The arguments of \<open>ws.emit\<close>: for the event \<open>WebSocketShardEvents.Dispatch\<close> the
  first argument after the event name is \<open>{ data, shardId }\<close>; a call with any other
  event carries arguments the wrapper does not look at.
\<close>

record DispatchInfo =
  data :: frame
  shardId :: nat

datatype 'x emit_args = DispatchEvent DispatchInfo | OtherEvent string 'x

text \<open>
  The payload written back to \<open>eventData[0].data\<close>. The opcode is read before the
  packet patch runs; the event name is read from the payload after it, and the event
  patch is whatever \<open>events\<close> holds under the property key of that value.
\<close>

definition inboundData :: "'c \<Rightarrow> 'c GatewayConfig \<Rightarrow> frame \<Rightarrow> error + frame" where
  "inboundData client cfg dat =
     (case dat of
        None \<Rightarrow> Inr dat
      | Some p \<Rightarrow>
          (case payload_op p of
             None \<Rightarrow> Inr dat
           | Some opcode \<Rightarrow>
               (case (case Option.bind (packets cfg opcode) inbound of
                        Some f \<Rightarrow> f client p
                      | None \<Rightarrow> Inr p) of
                  Inl e \<Rightarrow> Inl e
                | Inr p1 \<Rightarrow>
                    if opcode = Dispatch then
                      (case Option.bind (events cfg (propertyKey (payload_t p1))) event_inbound of
                         Some g \<Rightarrow> (case g client p1 of Inl e \<Rightarrow> Inl e | Inr p2 \<Rightarrow> Inr (Some p2))
                       | None \<Rightarrow> Inr (Some p1))
                    else Inr (Some p1))))"

text \<open>The wrapper of \<open>ws.emit\<close>; \<open>original\<close> is the wrapped function, which delivers
  the event to the consumers.\<close>

definition patchShardInbound ::
  "'c \<Rightarrow> 'c GatewayConfig \<Rightarrow> ('x emit_args \<Rightarrow> 'r) \<Rightarrow> 'x emit_args \<Rightarrow> error + 'r" where
  "patchShardInbound client cfg original args =
     (case args of
        OtherEvent name x \<Rightarrow> Inr (original args)
      | DispatchEvent info \<Rightarrow>
          (case inboundData client cfg (data info) of
             Inl e \<Rightarrow> Inl e
           | Inr dat \<Rightarrow> Inr (original (DispatchEvent (info\<lparr>data := dat\<rparr>)))))"

subsection \<open>The default gateway patches\<close>

text \<open>The client as the default callbacks read it: \<open>userAgent_value\<close> is
  \<open>client.patches?.userAgent?.value\<close>.\<close>

record Client =
  userAgent_value :: "string option"

definition DEFAULT_USER_AGENT :: string where
  "DEFAULT_USER_AGENT =
     ''Mozilla/5.0 (Windows NT 10.0; Win64; x64) AppleWebKit/537.36 (KHTML, like Gecko) Chrome/109.0.0.0 Safari/537.36''"

definition getUserAgent :: "Client \<Rightarrow> string" where
  "getUserAgent client =
     (case userAgent_value client of Some v \<Rightarrow> v | None \<Rightarrow> DEFAULT_USER_AGENT)"

text \<open>Assigning to and deleting a property of \<open>packet.d\<close>. The typed payloads have
  an object there; on \<open>null\<close> (and, in strict code, on a primitive) the assignment
  raises a TypeError.\<close>

definition setProp :: "string \<Rightarrow> json \<Rightarrow> json \<Rightarrow> error + json" where
  "setProp k v target =
     (case target of JObj kvs \<Rightarrow> Inr (JObj (AList.update k v kvs)) | _ \<Rightarrow> Inl TypeError)"

definition deleteProp :: "string \<Rightarrow> json \<Rightarrow> error + json" where
  "deleteProp k target =
     (case target of JObj kvs \<Rightarrow> Inr (JObj (AList.delete k kvs)) | _ \<Rightarrow> Inl TypeError)"

definition identify_outbound :: "Client \<Rightarrow> Payload \<Rightarrow> error + Payload" where
  "identify_outbound client packet =
     (case setProp ''capabilities'' (JNum 4093) (payload_d packet) of
        Inl e \<Rightarrow> Inl e
      | Inr d1 \<Rightarrow>
          (case setProp ''properties''
                  (JObj [(''browser'', JStr ''Chrome''),
                         (''browser_user_agent'', JStr (getUserAgent client)),
                         (''browser_version'', JStr ''109.0.0.0''),
                         (''client_build_number'', JNum 171842),
                         (''client_event_source'', JNull),
                         (''device'', JStr []),
                         (''os'', JStr ''Windows''),
                         (''os_version'', JStr ''10''),
                         (''referrer'', JStr []),
                         (''referrer_current'', JStr []),
                         (''referring_domain'', JStr []),
                         (''referring_domain_current'', JStr []),
                         (''release_channel'', JStr ''stable''),
                         (''system_locale'', JStr ''en-CA'')]) d1 of
             Inl e \<Rightarrow> Inl e
           | Inr d2 \<Rightarrow>
               (case deleteProp ''shard'' d2 of
                  Inl e \<Rightarrow> Inl e
                | Inr d3 \<Rightarrow> Inr (packet\<lparr>payload_d := d3\<rparr>))))"

definition ready_inbound :: "Client \<Rightarrow> Payload \<Rightarrow> error + Payload" where
  "ready_inbound client packet =
     (case setProp ''application'' (JObj [(''id'', JStr ''0''), (''flags'', JNum 0)])
             (payload_d packet) of
        Inl e \<Rightarrow> Inl e
      | Inr d1 \<Rightarrow> Inr (packet\<lparr>payload_d := d1\<rparr>))"

text \<open>Modelled from the spec: the event name of the "ready" dispatch event,
  \<open>GatewayDispatchEvents.Ready\<close>; the enum is declared in discord.js, outside the
  sources.\<close>

definition GatewayDispatchEvents_Ready :: string where
  "GatewayDispatchEvents_Ready = ''READY''"

definition DEFAULT_GATEWAY_PACKET_PATCHES :: "GatewayOpcodes \<rightharpoonup> Client GatewayPacketPatch" where
  "DEFAULT_GATEWAY_PACKET_PATCHES =
     [Identify \<mapsto> \<lparr>inbound = None, outbound = Some identify_outbound\<rparr>]"

definition DEFAULT_GATEWAY_EVENT_PATCHES :: "string \<rightharpoonup> Client GatewayEventPatch" where
  "DEFAULT_GATEWAY_EVENT_PATCHES =
     [GatewayDispatchEvents_Ready \<mapsto> \<lparr>event_inbound = Some ready_inbound\<rparr>]"

definition gateway_createDefaults :: "Client GatewayConfig" where
  "gateway_createDefaults =
     \<lparr>packets = DEFAULT_GATEWAY_PACKET_PATCHES, events = DEFAULT_GATEWAY_EVENT_PATCHES\<rparr>"

section \<open>Example inputs\<close>

text \<open>A stand-in for the library's \<open>resolveRequest\<close>: it allocates the given header
  value and returns a resolved request that refers to it.\<close>

definition resolve_with :: "header_value \<Rightarrow> resolver" where
  "resolve_with hv options st =
     (case alloc st hv of
        (r, st') \<Rightarrow>
          Inr (\<lparr>url = ''https://discord.com/api/v10'' @ fullRoute options, headers = Some r,
                fetch_method = request_method options, fetch_body = None\<rparr>, st'))"

text \<open>A stand-in for the library's \<open>request\<close>: only the generic gateway route
  answers.\<close>

definition gateway_info_server :: "RestRequest \<Rightarrow> error + json" where
  "gateway_info_server req =
     (if fullRoute req = ''/gateway'' then Inr (JObj [(''url'', JStr ''wss://gateway.discord.gg'')])
      else Inl (Thrown ''401: Unauthorized''))"

text \<open>A route patch whose callbacks throw.\<close>

definition failing_patch :: "unit RoutePatch" where
  "failing_patch =
     \<lparr>redirect = None,
      pre = Some (\<lambda>client req. if request_method req = ''DELETE'' then Inl (Thrown ''pre'') else Inr req),
      post = Some (\<lambda>client req res. Inl (Thrown ''post'')),
      resolve = Some (\<lambda>client req resolved st. Inl (Thrown ''resolve''))\<rparr>"

text \<open>A gateway configuration whose packet patch for dispatch frames renames the
  event, with a different event patch under each name.\<close>

definition rename_event :: "string \<Rightarrow> unit \<Rightarrow> Payload \<Rightarrow> error + Payload" where
  "rename_event name client p = Inr (p\<lparr>payload_t := T_name name\<rparr>)"

definition mark_seq :: "int \<Rightarrow> unit \<Rightarrow> Payload \<Rightarrow> error + Payload" where
  "mark_seq n client p = Inr (p\<lparr>payload_s := Some n\<rparr>)"

definition renaming_config :: "unit GatewayConfig" where
  "renaming_config =
     \<lparr>packets = [Dispatch \<mapsto> \<lparr>inbound = Some (rename_event ''B''), outbound = None\<rparr>],
      events = [''A'' \<mapsto> \<lparr>event_inbound = Some (mark_seq 1)\<rparr>,
                ''B'' \<mapsto> \<lparr>event_inbound = Some (mark_seq 2)\<rparr>]\<rparr>"

section \<open>Properties\<close>

lemma split_on_append_sep:
  "sep \<notin> set a \<Longrightarrow> split_on sep (a @ sep # b) = a # split_on sep b"
  by (induction a) auto

subsection \<open>Header normalization\<close>

lemmas header_defs = normalizeHeaders_def headerEntry_def split_limit_def trimStart_def
  isWhiteSpace_def fromEntries_def

lemma split_limit_two_colons:
  assumes "CHR '':'' \<notin> set name" "CHR '':'' \<notin> set v"
  shows "split_limit (name @ CHR '':'' # v @ CHR '':'' # rest) (CHR '':'') 2 = [name, v]"
  using assms by (simp add: split_limit_def split_on_append_sep)

text \<open>
  Claim C1, as the code has it. The two headers
  \<open>"Content-Type: application/json"\<close> and \<open>"Authorization: Bearer xyz"\<close> are
  normalized to the object with \<open>Content-Type\<close> = \<open>application/json\<close> and
  \<open>Authorization\<close> = \<open>Bearer xyz\<close>: the value is what follows the colon with its
  leading white space removed, and the \<open>Bearer\<close> prefix stays. The two orders of the
  list give the same mapping.
\<close>

theorem normalizeHeaders_example:
  "normalizeHeaders [''Content-Type: application/json'', ''Authorization: Bearer xyz'']
     = Inr [(''Content-Type'', ''application/json''), (''Authorization'', ''Bearer xyz'')]
   \<and> normalizeHeaders [''Authorization: Bearer xyz'', ''Content-Type: application/json'']
     = Inr [(''Authorization'', ''Bearer xyz''), (''Content-Type'', ''application/json'')]
   \<and> map_of [(''Content-Type'', ''application/json''), (''Authorization'', ''Bearer xyz'')]
     = map_of [(''Authorization'', ''Bearer xyz''), (''Content-Type'', ''application/json'')]"
  by (simp add: header_defs fun_upd_twist)

text \<open>The claim's own value \<open>xyz\<close> for \<open>Authorization\<close> is not what the conversion
  yields on that list.\<close>

theorem normalizeHeaders_example_counterexample:
  "normalizeHeaders [''Content-Type: application/json'', ''Authorization: Bearer xyz'']
     = Inr [(''Content-Type'', ''application/json''), (''Authorization'', ''Bearer xyz'')]
   \<and> map_of [(''Content-Type'', ''application/json''), (''Authorization'', ''Bearer xyz'')]
         ''Authorization'' \<noteq> Some ''xyz''"
  by (simp add: header_defs)

text \<open>
  Claim C9. A header is split at every colon and only the first two pieces are kept:
  when the value itself contains a colon, the normalized value is the text between the
  first and the second colon of the header (with leading white space removed), and
  everything from the second colon on is dropped.
\<close>

theorem header_value_cut_at_second_colon:
  assumes "CHR '':'' \<notin> set name" and "CHR '':'' \<notin> set v"
  shows "headerEntry (name @ CHR '':'' # v @ CHR '':'' # rest) = Inr (name, trimStart v)
     \<and> normalizeHeaders [name @ CHR '':'' # v @ CHR '':'' # rest] = Inr [(name, trimStart v)]"
  using split_limit_two_colons [OF assms]
  by (simp add: headerEntry_def normalizeHeaders_def fromEntries_def)

theorem header_value_cut_at_second_colon_witness:
  "CHR '':'' \<notin> set ''Referer'' \<and> CHR '':'' \<notin> set '' https''
   \<and> headerEntry ''Referer: https://x'' = Inr (''Referer'', ''https'')
   \<and> normalizeHeaders [''Referer: https://x''] = Inr [(''Referer'', ''https'')]"
  using header_value_cut_at_second_colon [of "''Referer''" "'' https''" "''//x''"]
  by (simp add: trimStart_def isWhiteSpace_def)

subsection \<open>The route matcher\<close>

inductive_simps instance_of_Nil: "instance_of [] p"
inductive_simps instance_of_Lit: "instance_of (Lit c # ts) p"
inductive_simps instance_of_Placeholder: "instance_of (Placeholder # ts) p"

lemma isLower_not_syntax: "isLower c \<Longrightarrow> \<not> isSyntaxChar c"
  by (auto simp: isLower_def isSyntaxChar_def)

lemma bslash_not_lower: "\<not> isLower bslash"
  by (simp add: isLower_def)

lemma takeWhile_isLower_escape:
  "takeWhile isLower (escapeRegExp t) = takeWhile isLower t"
  by (induction t) (auto simp: isLower_not_syntax bslash_not_lower)

lemma dropWhile_isLower_escape:
  "dropWhile isLower (escapeRegExp t) = escapeRegExp (dropWhile isLower t)"
  by (induction t) (auto simp: isLower_not_syntax bslash_not_lower)

lemma escape_head: "escapeRegExp s = c # r \<Longrightarrow> c = bslash \<or> \<not> isSyntaxChar c"
  by (cases s) (auto split: if_splits)

lemma syntax_simps:
  "isSyntaxChar (CHR ''{'')" "isSyntaxChar (CHR ''}'')" "isSyntaxChar bslash"
  "\<not> isSyntaxChar (CHR '':'')" "isSyntaxChar (CHR ''['')" "\<not> isSyntaxChar (CHR ''/'')"
  by (simp_all add: isSyntaxChar_def)

lemma startsWith_escape_open:
  "startsWith (escapeRegExp s) [bslash, CHR ''{'', CHR '':''] \<longleftrightarrow> startsWith s ''{:''"
proof (cases s)
  case Nil
  then show ?thesis by (simp add: startsWith_def)
next
  case (Cons c t)
  show ?thesis
  proof (cases t)
    case Nil
    with Cons show ?thesis by (auto simp: startsWith_def syntax_simps)
  next
    case (Cons d u)
    with \<open>s = c # t\<close> show ?thesis
      by (auto simp: startsWith_def syntax_simps)
  qed
qed

lemma startsWith_escape_close:
  "startsWith (escapeRegExp r) [bslash, CHR ''}''] \<longleftrightarrow> startsWith r ''}''"
  by (cases r) (auto simp: startsWith_def syntax_simps)

lemma drop_escape_open:
  "startsWith s ''{:'' \<Longrightarrow> drop 3 (escapeRegExp s) = escapeRegExp (drop 2 s)"
  by (cases s; cases "tl s") (auto simp: startsWith_def syntax_simps)

lemma drop_escape_close:
  "startsWith r ''}'' \<Longrightarrow> drop 2 (escapeRegExp r) = escapeRegExp (drop 1 r)"
  by (cases r) (auto simp: startsWith_def syntax_simps)

lemma escaped_param_at_escape:
  "escaped_param_at (escapeRegExp s) = map_option escapeRegExp (param_at s)"
  by (simp add: escaped_param_at_def param_at_def startsWith_escape_open drop_escape_open
      takeWhile_isLower_escape dropWhile_isLower_escape startsWith_escape_close
      drop_escape_close Let_def)


lemma escaped_param_at_syntax_Cons:
  "isSyntaxChar c \<Longrightarrow> escaped_param_at (c # escapeRegExp cs) = None"
proof (cases "escapeRegExp cs")
  case Nil
  then show ?thesis by (simp add: escaped_param_at_def startsWith_def)
next
  case (Cons d r)
  then have "d \<noteq> CHR ''{''"
    using escape_head [of cs d r] by (auto simp: syntax_simps)
  with Cons show ?thesis by (simp add: escaped_param_at_def startsWith_def)
qed

lemma parse_regex_class:
  "parse_regex (''[^/]+'' @ y) = map_option ((#) RNotSlashPlus) (parse_regex y)"
  by (simp add: startsWith_def)

lemma parse_regex_escaped:
  "isSyntaxChar c \<Longrightarrow> parse_regex (bslash # c # y) = map_option ((#) (RChar c)) (parse_regex y)"
  by simp

lemma parse_regex_plain:
  "\<not> isSyntaxChar c \<Longrightarrow> parse_regex (c # y) = map_option ((#) (RChar c)) (parse_regex y)"
  by (auto simp: startsWith_def syntax_simps)

lemma keyRegex_atoms:
  "parse_regex (replaceEscapedParams (escapeRegExp key)) = Some (map rx_of (template_segs key))"
proof (induction key rule: template_segs.induct)
  case 1
  show ?case by simp
next
  case (2 c cs)
  show ?case
  proof (cases "param_at (c # cs)")
    case (Some rest)
    have e: "escaped_param_at (escapeRegExp (c # cs)) = Some (escapeRegExp rest)"
      using Some by (simp only: escaped_param_at_escape option.map)
    obtain x xs where x: "escapeRegExp (c # cs) = x # xs"
      by (cases "escapeRegExp (c # cs)") (auto split: if_splits)
    have "replaceEscapedParams (escapeRegExp (c # cs))
            = ''[^/]+'' @ replaceEscapedParams (escapeRegExp rest)"
      using e unfolding x by simp
    with 2(2) [OF Some] Some
      parse_regex_class [of "replaceEscapedParams (escapeRegExp rest)"]
    show ?thesis
      by (simp del: parse_regex.simps escapeRegExp.simps)
  next
    case None
    have e: "escaped_param_at (escapeRegExp (c # cs)) = None"
      using None by (simp only: escaped_param_at_escape option.map)
    show ?thesis
    proof (cases "isSyntaxChar c")
      case True
      have e2: "escaped_param_at (c # escapeRegExp cs) = None"
        using True by (rule escaped_param_at_syntax_Cons)
      have esc: "escapeRegExp (c # cs) = bslash # c # escapeRegExp cs"
        using True by simp
      have "replaceEscapedParams (escapeRegExp (c # cs))
              = bslash # replaceEscapedParams (c # escapeRegExp cs)"
        using e unfolding esc by simp
      also have "replaceEscapedParams (c # escapeRegExp cs)
              = c # replaceEscapedParams (escapeRegExp cs)"
        using e2 by simp
      finally have "replaceEscapedParams (escapeRegExp (c # cs))
              = bslash # c # replaceEscapedParams (escapeRegExp cs)" .
      with 2(1) [OF None] None show ?thesis
        by (simp add: parse_regex_escaped [OF True] del: parse_regex.simps)
    next
      case False
      have "replaceEscapedParams (escapeRegExp (c # cs))
              = c # replaceEscapedParams (escapeRegExp cs)"
        using e False by simp
      with 2(1) [OF None] None show ?thesis
        by (simp add: parse_regex_plain [OF False] del: parse_regex.simps)
    qed
  qed
qed

lemma takeWhile_length_prefix:
  "\<forall>x \<in> set v. P x \<Longrightarrow> length v \<le> length (takeWhile P (v @ r))"
  by (induction v) auto

lemma take_within_takeWhile:
  "n \<le> length (takeWhile P s) \<Longrightarrow> \<forall>x \<in> set (take n s). P x"
proof (induction s arbitrary: n)
  case Nil
  show ?case by simp
next
  case (Cons c cs)
  show ?case
  proof (cases n)
    case 0
    then show ?thesis by simp
  next
    case (Suc k)
    with Cons.prems have "P c" "k \<le> length (takeWhile P cs)"
      by (auto split: if_splits)
    with Cons.IH [of k] Suc show ?thesis by simp
  qed
qed

lemma rx_match_prefix_instance:
  "rx_match_prefix (map rx_of ts) s \<longleftrightarrow> (\<exists>p. prefix p s \<and> instance_of ts p)"
proof (induction ts arbitrary: s)
  case Nil
  show ?case by (auto simp: instance_of_Nil)
next
  case (Cons t ts)
  show ?case
  proof (cases t)
    case (Lit c)
    show ?thesis
    proof (cases s)
      case Nil
      with Lit show ?thesis by (auto simp: instance_of_Lit)
    next
      case (Cons d ds)
      with Lit Cons.IH [of ds] show ?thesis
        by (auto simp: instance_of_Lit prefix_Cons)
    qed
  next
    case Placeholder
    let ?m = "length (takeWhile (\<lambda>d. d \<noteq> CHR ''/'') s)"
    have "rx_match_prefix (map rx_of (t # ts)) s
            \<longleftrightarrow> (\<exists>n. 1 \<le> n \<and> n \<le> ?m \<and> rx_match_prefix (map rx_of ts) (drop n s))"
      using Placeholder by (auto simp: list_ex_iff)
    also have "\<dots> \<longleftrightarrow> (\<exists>p. prefix p s \<and> instance_of (t # ts) p)"
    proof
      assume "\<exists>n. 1 \<le> n \<and> n \<le> ?m \<and> rx_match_prefix (map rx_of ts) (drop n s)"
      then obtain n where n: "1 \<le> n" "n \<le> ?m"
        and m: "rx_match_prefix (map rx_of ts) (drop n s)" by blast
      from m Cons.IH [of "drop n s"] obtain w where w: "prefix w (drop n s)" "instance_of ts w"
        by blast
      have "?m \<le> length s" by (rule length_takeWhile_le)
      with n have "take n s \<noteq> []" by auto
      moreover have "CHR ''/'' \<notin> set (take n s)"
        using take_within_takeWhile [OF n(2)] by blast
      ultimately have "instance_of (Placeholder # ts) (take n s @ w)"
        using w(2) by (rule inst_Placeholder)
      moreover have "prefix (take n s @ w) s"
        using w(1) by (metis append_take_drop_id same_prefix_prefix)
      ultimately show "\<exists>p. prefix p s \<and> instance_of (t # ts) p"
        using Placeholder by blast
    next
      assume "\<exists>p. prefix p s \<and> instance_of (t # ts) p"
      then obtain v w where p: "prefix (v @ w) s" and v: "v \<noteq> []" "CHR ''/'' \<notin> set v"
        and w: "instance_of ts w"
        using Placeholder by (auto simp: instance_of_Placeholder)
      from p obtain r where s: "s = v @ w @ r" by (auto simp: prefix_def)
      have "length v \<le> ?m"
        unfolding s using v(2) by (intro takeWhile_length_prefix) auto
      moreover have "1 \<le> length v" using v(1) by (cases v) auto
      moreover have "rx_match_prefix (map rx_of ts) (drop (length v) s)"
        using Cons.IH [of "drop (length v) s"] w unfolding s by auto
      ultimately show "\<exists>n. 1 \<le> n \<and> n \<le> ?m \<and> rx_match_prefix (map rx_of ts) (drop n s)"
        by blast
    qed
    finally show ?thesis .
  qed
qed

lemma REGEX_PARAMETER_test_segs:
  "REGEX_PARAMETER_test key \<longleftrightarrow> Placeholder \<in> set (template_segs key)"
  by (induction key rule: template_segs.induct) (auto split: option.splits)

lemma indexOf_ge: "- 1 \<le> indexOf s pat"
  by (induction s) (auto simp: Let_def)

lemma startsWith_prefix: "startsWith s p \<longleftrightarrow> prefix p s"
  by (auto simp: startsWith_def prefix_def) (metis append_take_drop_id)

lemma indexOf_sublist: "indexOf s pat < 0 \<longleftrightarrow> \<not> sublist pat s"
proof (induction s)
  case Nil
  show ?case by auto
next
  case (Cons c cs)
  show ?case
    using Cons indexOf_ge [of cs pat]
    by (auto simp: Let_def startsWith_prefix sublist_Cons_right)
qed

lemma guard_without_placeholder_opener:
  assumes "\<not> sublist ''{:'' route"
  shows "startsWith key (substring route 0 (indexOf route ''{:''))"
proof -
  have "indexOf route ''{:'' < 0" using assms by (simp add: indexOf_sublist)
  then show ?thesis by (simp add: substring_def startsWith_def Let_def)
qed

lemma testParameterizedMatch_general:
  "testParameterizedMatch route key =
     Some (Placeholder \<in> set (template_segs key)
           \<and> startsWith key (substring route 0 (indexOf route ''{:''))
           \<and> template_matches_prefix key route)"
  by (simp add: testParameterizedMatch_def RegExp_test_def keyRegex_atoms
      rx_match_prefix_instance template_matches_prefix_def REGEX_PARAMETER_test_segs)


lemmas match_defs = testParameterizedMatch_def param_at_def startsWith_def isLower_def
  isSyntaxChar_def substring_def escaped_param_at_def RegExp_test_def

text \<open>
  Claim C3. The matcher is a prefix match. For a concrete path (one without the
  placeholder opener \<open>{:\<close>), \<open>testParameterizedMatch\<close> answers true exactly when
  the template has a placeholder and some instance of the template, every placeholder
  replaced by one or more characters other than \<open>/\<close>, is a prefix of the path.
  \<open>/users/123/\<close> matches \<open>/users/{:id}/\<close>, \<open>/guilds/123/\<close> does not, and
  \<open>/users/42/guilds\<close>, which extends a matching prefix, matches too.
\<close>

theorem testParameterizedMatch_prefix:
  "(\<not> sublist ''{:'' route \<longrightarrow>
      testParameterizedMatch route key
        = Some (Placeholder \<in> set (template_segs key) \<and> template_matches_prefix key route))
   \<and> testParameterizedMatch ''/users/123/'' ''/users/{:id}/'' = Some True
   \<and> testParameterizedMatch ''/guilds/123/'' ''/users/{:id}/'' = Some False
   \<and> testParameterizedMatch ''/users/42/guilds'' ''/users/{:id}/'' = Some True"
proof (intro conjI impI)
  assume "\<not> sublist ''{:'' route"
  then show "testParameterizedMatch route key
        = Some (Placeholder \<in> set (template_segs key) \<and> template_matches_prefix key route)"
    by (simp add: testParameterizedMatch_general guard_without_placeholder_opener)
next
  show "testParameterizedMatch ''/users/123/'' ''/users/{:id}/'' = Some True"
    by (simp add: match_defs)
next
  show "testParameterizedMatch ''/guilds/123/'' ''/users/{:id}/'' = Some False"
    by (simp add: match_defs)
next
  show "testParameterizedMatch ''/users/42/guilds'' ''/users/{:id}/'' = Some True"
    by (simp add: match_defs)
qed

theorem testParameterizedMatch_prefix_witness:
  "\<not> sublist ''{:'' ''/users/42/guilds''
   \<and> testParameterizedMatch ''/users/42/guilds'' ''/users/{:id}/'' = Some True
   \<and> Placeholder \<in> set (template_segs ''/users/{:id}/'')
   \<and> template_matches_prefix ''/users/{:id}/'' ''/users/42/guilds''"
proof -
  have n: "\<not> sublist ''{:'' ''/users/42/guilds''"
    by (simp add: indexOf_sublist [symmetric] startsWith_def)
  have t: "testParameterizedMatch ''/users/42/guilds'' ''/users/{:id}/'' = Some True"
    by (simp add: match_defs)
  from testParameterizedMatch_prefix [of "''/users/42/guilds''" "''/users/{:id}/''"] n t
  show ?thesis by simp
qed

subsection \<open>Patch lookup\<close>

lemma firstParameterized_find:
  "firstParameterized route es
     = map_option snd (find (\<lambda>(key, val). testParameterizedMatch route key = Some True) es)"
  by (induction es) auto

lemma firstParameterized_none:
  "(\<forall>(key, val) \<in> set es. testParameterizedMatch route key \<noteq> Some True)
     \<Longrightarrow> firstParameterized route es = None"
  by (induction es) auto

lemma firstParameterized_first:
  "(\<forall>(key, val) \<in> set before. testParameterizedMatch route key \<noteq> Some True)
     \<Longrightarrow> testParameterizedMatch route k = Some True
     \<Longrightarrow> firstParameterized route (before @ (k, p) # after) = Some p"
  by (induction before) auto

text \<open>
  Claim C4. The patch lookup returns the patch stored under the exactly equal key when
  the map has one, whatever parameterized templates were inserted before it; otherwise
  the patch of the first entry, in insertion order, whose key passes the parameterized
  match; otherwise no patch.
\<close>

theorem findPatch_exact_then_first_parameterized:
  "(distinct (map fst routes) \<and> (route, p) \<in> set routes \<longrightarrow> findPatch routes route = Some p)
   \<and> (route \<notin> fst ` set routes
        \<and> (\<forall>(key, val) \<in> set before. testParameterizedMatch route key \<noteq> Some True)
        \<and> testParameterizedMatch route k = Some True
        \<and> routes = before @ (k, p) # after
      \<longrightarrow> findPatch routes route = Some p)
   \<and> (route \<notin> fst ` set routes
        \<and> (\<forall>(key, val) \<in> set routes. testParameterizedMatch route key \<noteq> Some True)
      \<longrightarrow> findPatch routes route = None)"
proof (intro conjI impI)
  assume "distinct (map fst routes) \<and> (route, p) \<in> set routes"
  then have "map_of routes route = Some p" by simp
  then show "findPatch routes route = Some p" by (simp add: findPatch_def)
next
  assume a: "route \<notin> fst ` set routes
        \<and> (\<forall>(key, val) \<in> set before. testParameterizedMatch route key \<noteq> Some True)
        \<and> testParameterizedMatch route k = Some True
        \<and> routes = before @ (k, p) # after"
  then have "route \<notin> fst ` set routes" by blast
  then have "map_of routes route = None" by (simp only: map_of_eq_None_iff not_False_eq_True)
  moreover have "firstParameterized route routes = Some p"
    using a firstParameterized_first [of before route k p after] by blast
  ultimately show "findPatch routes route = Some p" by (simp add: findPatch_def)
next
  assume a: "route \<notin> fst ` set routes
        \<and> (\<forall>(key, val) \<in> set routes. testParameterizedMatch route key \<noteq> Some True)"
  then have "map_of routes route = None" by (simp add: map_of_eq_None_iff)
  moreover have "firstParameterized route routes = None"
    using a firstParameterized_none [of routes route] by blast
  ultimately show "findPatch routes route = None" by (simp add: findPatch_def)
qed

theorem findPatch_exact_then_first_parameterized_witness:
  "findPatch [(''/users/{:id}/'', ''parameterized''), (''/users/42/'', ''exact'')] ''/users/42/''
     = Some ''exact''
   \<and> findPatch [(''/gateway'', ''other''), (''/users/{:id}/'', ''first''), (''/users/{:id}/x'', ''second'')]
        ''/users/7/x'' = Some ''first''
   \<and> findPatch [(''/gateway'', ''other''), (''/users/{:id}/'', ''first'')] ''/guilds/7/'' = None"
proof -
  have m1: "testParameterizedMatch ''/users/7/x'' ''/gateway'' \<noteq> Some True"
    by (simp add: match_defs)
  have m2: "testParameterizedMatch ''/users/7/x'' ''/users/{:id}/'' = Some True"
    by (simp add: match_defs)
  have m3: "testParameterizedMatch ''/guilds/7/'' ''/gateway'' \<noteq> Some True"
    by (simp add: match_defs)
  have m4: "testParameterizedMatch ''/guilds/7/'' ''/users/{:id}/'' \<noteq> Some True"
    by (simp add: match_defs)
  have a: "findPatch [(''/users/{:id}/'', ''parameterized''), (''/users/42/'', ''exact'')]
             ''/users/42/'' = Some ''exact''"
    using findPatch_exact_then_first_parameterized
      [of "[(''/users/{:id}/'', ''parameterized''), (''/users/42/'', ''exact'')]"
          "''/users/42/''" "''exact''"]
    by simp
  have b: "findPatch [(''/gateway'', ''other''), (''/users/{:id}/'', ''first''),
                      (''/users/{:id}/x'', ''second'')] ''/users/7/x'' = Some ''first''"
    using findPatch_exact_then_first_parameterized
      [of "[(''/gateway'', ''other''), (''/users/{:id}/'', ''first''),
            (''/users/{:id}/x'', ''second'')]"
          "''/users/7/x''" "''first''" "[(''/gateway'', ''other'')]" "''/users/{:id}/''"
          "[(''/users/{:id}/x'', ''second'')]"] m1 m2
    by simp
  have c: "findPatch [(''/gateway'', ''other''), (''/users/{:id}/'', ''first'')] ''/guilds/7/''
             = None"
    using findPatch_exact_then_first_parameterized
      [of "[(''/gateway'', ''other''), (''/users/{:id}/'', ''first'')]" "''/guilds/7/''"] m3 m4
    by simp
  from a b c show ?thesis by blast
qed

subsection \<open>The gateway interceptor\<close>

text \<open>
  Claim C5. On an inbound dispatch frame with both patches present, the packet patch
  of the dispatch opcode runs first on the whole payload, and the event patch is looked
  up under the event name of the payload the packet patch returned (the property key
  of its \<open>t\<close> field): when the packet patch renames the event, the patch registered
  under the new name runs.
\<close>

theorem inbound_packet_patch_then_event_patch:
  assumes "payload_op p = Some Dispatch"
    and "packets cfg Dispatch = Some pp" and "inbound pp = Some f"
    and "f client p = Inr p1"
    and "events cfg (propertyKey (payload_t p1)) = Some ep" and "event_inbound ep = Some g"
  shows "inboundData client cfg (Some p)
         = (case g client p1 of Inl e \<Rightarrow> Inl e | Inr p2 \<Rightarrow> Inr (Some p2))
     \<and> patchShardInbound client cfg original (DispatchEvent \<lparr>data = Some p, shardId = sh\<rparr>)
         = (case g client p1 of
              Inl e \<Rightarrow> Inl e
            | Inr p2 \<Rightarrow> Inr (original (DispatchEvent \<lparr>data = Some p2, shardId = sh\<rparr>)))"
  using assms by (simp add: inboundData_def patchShardInbound_def split: sum.splits)

theorem inbound_packet_patch_then_event_patch_witness:
  "inboundData () renaming_config
     (Some \<lparr>payload_op = Some Dispatch, payload_d = JNull, payload_s = None, payload_t = T_name ''A''\<rparr>)
   = Inr (Some \<lparr>payload_op = Some Dispatch, payload_d = JNull, payload_s = Some 2,
               payload_t = T_name ''B''\<rparr>)
   \<and> patchShardInbound () renaming_config id
       (DispatchEvent \<lparr>data = Some \<lparr>payload_op = Some Dispatch, payload_d = JNull,
                                  payload_s = None, payload_t = T_name ''A''\<rparr>,
                      shardId = 0\<rparr>
          :: unit emit_args)
   = Inr (DispatchEvent \<lparr>data = Some \<lparr>payload_op = Some Dispatch, payload_d = JNull,
                                     payload_s = Some 2, payload_t = T_name ''B''\<rparr>,
                         shardId = 0\<rparr>)"
  using inbound_packet_patch_then_event_patch
    [where p = "\<lparr>payload_op = Some Dispatch, payload_d = JNull, payload_s = None,
                  payload_t = T_name ''A''\<rparr>"
       and cfg = renaming_config
       and pp = "\<lparr>inbound = Some (rename_event ''B''), outbound = None\<rparr>"
       and f = "rename_event ''B''" and client = "()"
       and ?p1.0 = "\<lparr>payload_op = Some Dispatch, payload_d = JNull, payload_s = None,
                     payload_t = T_name ''B''\<rparr>"
       and ep = "\<lparr>event_inbound = Some (mark_seq 2)\<rparr>"
       and g = "mark_seq 2"
       and original = "id :: unit emit_args \<Rightarrow> unit emit_args" and sh = 0]
  by (simp add: renaming_config_def rename_event_def mark_seq_def)

text \<open>
  Claim C7, as the code has it. A frame without an \<open>op\<close> field, or whose opcode has
  no packet patch, is handed to the wrapped \<open>send\<close> unchanged; on the inbound path
  it is delivered unchanged provided that, for a dispatch frame, no event patch is
  registered under its event name either (for a missing or \<open>null\<close> \<open>t\<close>, under the
  key \<open>"undefined"\<close> or \<open>"null"\<close>). Events other than the dispatch event are
  delivered as they are.
\<close>

theorem unpatched_frames_pass_through:
  "((\<forall>p opcode. dat = Some p \<and> payload_op p = Some opcode \<longrightarrow> packets cfg opcode = None)
      \<longrightarrow> patchShardOutbound client cfg send dat = Inr (send dat))
   \<and> ((\<forall>p opcode. dat = Some p \<and> payload_op p = Some opcode \<longrightarrow> packets cfg opcode = None)
       \<and> (\<forall>p. dat = Some p \<and> payload_op p = Some Dispatch
              \<longrightarrow> events cfg (propertyKey (payload_t p)) = None)
      \<longrightarrow> patchShardInbound client cfg deliver (DispatchEvent \<lparr>data = dat, shardId = sh\<rparr>)
            = Inr (deliver (DispatchEvent \<lparr>data = dat, shardId = sh\<rparr>)))
   \<and> patchShardInbound client cfg deliver (OtherEvent ev x) = Inr (deliver (OtherEvent ev x))"
proof (intro conjI impI)
  assume a: "\<forall>p opcode. dat = Some p \<and> payload_op p = Some opcode \<longrightarrow> packets cfg opcode = None"
  have "outboundData client cfg dat = Inr dat"
    using a by (auto simp: outboundData_def split: option.splits)
  then show "patchShardOutbound client cfg send dat = Inr (send dat)"
    by (simp add: patchShardOutbound_def)
next
  assume a: "(\<forall>p opcode. dat = Some p \<and> payload_op p = Some opcode \<longrightarrow> packets cfg opcode = None)
       \<and> (\<forall>p. dat = Some p \<and> payload_op p = Some Dispatch
              \<longrightarrow> events cfg (propertyKey (payload_t p)) = None)"
  have "inboundData client cfg dat = Inr dat"
  proof (cases dat)
    case None
    then show ?thesis by (simp add: inboundData_def)
  next
    case (Some p)
    show ?thesis
    proof (cases "payload_op p")
      case None
      with Some show ?thesis by (simp add: inboundData_def)
    next
      case (Some opcode)
      with \<open>dat = Some p\<close> a have pk: "packets cfg opcode = None" by blast
      have ev: "opcode = Dispatch \<Longrightarrow> events cfg (propertyKey (payload_t p)) = None"
        using a \<open>dat = Some p\<close> Some by blast
      show ?thesis
        using \<open>dat = Some p\<close> Some pk ev by (simp add: inboundData_def)
    qed
  qed
  then show "patchShardInbound client cfg deliver (DispatchEvent \<lparr>data = dat, shardId = sh\<rparr>)
            = Inr (deliver (DispatchEvent \<lparr>data = dat, shardId = sh\<rparr>))"
    by (simp add: patchShardInbound_def)
next
  show "patchShardInbound client cfg deliver (OtherEvent ev x) = Inr (deliver (OtherEvent ev x))"
    by (simp add: patchShardInbound_def)
qed

theorem unpatched_frames_pass_through_witness:
  "patchShardOutbound \<lparr>userAgent_value = None\<rparr> gateway_createDefaults id
      (Some \<lparr>payload_op = Some Heartbeat, payload_d = JNum 7, payload_s = None, payload_t = T_null\<rparr>)
     = Inr (Some \<lparr>payload_op = Some Heartbeat, payload_d = JNum 7, payload_s = None,
                  payload_t = T_null\<rparr>)
   \<and> patchShardInbound \<lparr>userAgent_value = None\<rparr> gateway_createDefaults id
       (DispatchEvent \<lparr>data = Some \<lparr>payload_op = Some Dispatch, payload_d = JNull,
                                  payload_s = Some 3, payload_t = T_name ''RESUMED''\<rparr>,
                      shardId = 0\<rparr>
          :: unit emit_args)
     = Inr (DispatchEvent \<lparr>data = Some \<lparr>payload_op = Some Dispatch, payload_d = JNull,
                                       payload_s = Some 3, payload_t = T_name ''RESUMED''\<rparr>,
                           shardId = 0\<rparr>)"
proof -
  let ?c = "\<lparr>userAgent_value = None\<rparr>"
  let ?hb = "Some \<lparr>payload_op = Some Heartbeat, payload_d = JNum 7, payload_s = None,
                   payload_t = T_null\<rparr>"
  let ?rs = "Some \<lparr>payload_op = Some Dispatch, payload_d = JNull, payload_s = Some 3,
                   payload_t = T_name ''RESUMED''\<rparr>"
  have h1: "\<forall>p opcode. ?hb = Some p \<and> payload_op p = Some opcode
              \<longrightarrow> packets gateway_createDefaults opcode = None"
    by (auto simp: gateway_createDefaults_def DEFAULT_GATEWAY_PACKET_PATCHES_def)
  have h2: "(\<forall>p opcode. ?rs = Some p \<and> payload_op p = Some opcode
              \<longrightarrow> packets gateway_createDefaults opcode = None)
       \<and> (\<forall>p. ?rs = Some p \<and> payload_op p = Some Dispatch
              \<longrightarrow> events gateway_createDefaults (propertyKey (payload_t p)) = None)"
    by (auto simp: gateway_createDefaults_def DEFAULT_GATEWAY_PACKET_PATCHES_def
        DEFAULT_GATEWAY_EVENT_PATCHES_def GatewayDispatchEvents_Ready_def)
  from unpatched_frames_pass_through
    [where dat = ?hb and cfg = gateway_createDefaults and client = ?c
       and send = "id :: frame \<Rightarrow> frame" and deliver = "id :: unit emit_args \<Rightarrow> unit emit_args"
       and sh = 0 and ev = "[]" and x = "()"] h1
  have a: "patchShardOutbound ?c gateway_createDefaults id ?hb = Inr ?hb" by simp
  from unpatched_frames_pass_through
    [where dat = ?rs and cfg = gateway_createDefaults and client = ?c
       and send = "id :: frame \<Rightarrow> frame" and deliver = "id :: unit emit_args \<Rightarrow> unit emit_args"
       and sh = 0 and ev = "[]" and x = "()"] h2
  have b: "patchShardInbound ?c gateway_createDefaults id
             (DispatchEvent \<lparr>data = ?rs, shardId = 0\<rparr> :: unit emit_args)
           = Inr (DispatchEvent \<lparr>data = ?rs, shardId = 0\<rparr>)"
    by simp
  from a b show ?thesis by blast
qed

text \<open>With the default patches the dispatch opcode has no packet patch, yet an inbound
  \<open>READY\<close> frame is changed: the event patch adds \<open>application\<close> to its data.\<close>

theorem unpatched_frames_counterexample:
  "packets gateway_createDefaults Dispatch = None
   \<and> inboundData \<lparr>userAgent_value = None\<rparr> gateway_createDefaults
        (Some \<lparr>payload_op = Some Dispatch, payload_d = JObj [(''v'', JNum 10)],
               payload_s = Some 1, payload_t = T_name ''READY''\<rparr>)
      = Inr (Some \<lparr>payload_op = Some Dispatch,
                   payload_d = JObj [(''v'', JNum 10),
                     (''application'', JObj [(''id'', JStr ''0''), (''flags'', JNum 0)])],
                   payload_s = Some 1, payload_t = T_name ''READY''\<rparr>)
   \<and> JObj [(''v'', JNum 10), (''application'', JObj [(''id'', JStr ''0''), (''flags'', JNum 0)])]
       \<noteq> JObj [(''v'', JNum 10)]"
  by (simp add: gateway_createDefaults_def DEFAULT_GATEWAY_PACKET_PATCHES_def
      DEFAULT_GATEWAY_EVENT_PATCHES_def GatewayDispatchEvents_Ready_def inboundData_def
      ready_inbound_def setProp_def)

text \<open>A dispatch frame whose \<open>t\<close> is \<open>null\<close> is looked up under the key \<open>"null"\<close>: an
  event patch registered there runs.\<close>

lemma null_event_name_uses_key_null:
  "inboundData ()
     \<lparr>packets = Map.empty, events = [''null'' \<mapsto> \<lparr>event_inbound = Some (mark_seq 9)\<rparr>]\<rparr>
     (Some \<lparr>payload_op = Some Dispatch, payload_d = JNull, payload_s = None, payload_t = T_null\<rparr>)
   = Inr (Some \<lparr>payload_op = Some Dispatch, payload_d = JNull, payload_s = Some 9,
               payload_t = T_null\<rparr>)"
  by (simp add: inboundData_def mark_seq_def)

subsection \<open>The REST interceptor\<close>

lemma map_of_spread:
  "map_of (spread base v) = map_of base ++ map_of (rev (ownEntries v))"
proof -
  have "map_of (foldl (\<lambda>ob (k, x). AList.update k x ob) b es) = map_of b ++ map_of (rev es)"
    for b :: "json obj" and es
  proof (induction es arbitrary: b)
    case Nil
    show ?case by simp
  next
    case (Cons e es)
    obtain k x where e: "e = (k, x)" by (cases e)
    show ?case
      by (rule ext) (simp add: Cons.IH e update_conv' map_add_def split: option.splits)
  qed
  then show ?thesis by (simp add: spread_def)
qed

lemma map_of_rev_distinct:
  "distinct (map fst xs) \<Longrightarrow> map_of (rev xs) = map_of xs"
proof (induction xs)
  case Nil
  show ?case by simp
next
  case (Cons e xs)
  obtain k v where e: "e = (k, v)" by (cases e)
  from Cons.prems e have "map_of xs k = None"
    by (simp add: map_of_eq_None_iff)
  with Cons e show ?case
    by (auto simp: map_add_def fun_eq_iff split: option.splits)
qed

lemma patchRequest_gatewayBot:
  assumes "fullRoute options = Routes_gatewayBot"
  shows "patchRequest client createDefaults original options
     = (case original (options\<lparr>fullRoute := Routes_gateway\<rparr>) of
          Inl e \<Rightarrow> Inl e
        | Inr res \<Rightarrow> gatewayBot_post client (options\<lparr>fullRoute := Routes_gateway\<rparr>) res)"
  using assms
  by (simp add: patchRequest_def redirected_def applyPre_def findPatch_def createDefaults_def
      DEFAULT_ROUTE_PATCHES_def Routes_gateway_def Let_def split: sum.splits)

text \<open>
  Claim C6. With the default route patches, a request to the gateway-bot route is
  sent to the generic gateway route instead. When the response to that is an object
  with neither \<open>shards\<close> nor \<open>session_start_limit\<close>, the result has \<open>shards\<close> = 1
  and a \<open>session_start_limit\<close> whose \<open>remaining\<close> and \<open>max_concurrency\<close> are 1,
  and every field of the response is in the result with its value.
\<close>

theorem gatewayBot_request_end_to_end:
  assumes "fullRoute options = Routes_gatewayBot"
    and "original (options\<lparr>fullRoute := Routes_gateway\<rparr>) = Inr (JObj res)"
    and "distinct (map fst res)"
  shows "\<exists>r lim. patchRequest client createDefaults original options = Inr (JObj r)
     \<and> (\<forall>k v. map_of res k = Some v \<longrightarrow> map_of r k = Some v)
     \<and> (map_of res ''shards'' = None \<longrightarrow> map_of r ''shards'' = Some (JNum 1))
     \<and> (map_of res ''session_start_limit'' = None \<longrightarrow>
          map_of r ''session_start_limit'' = Some (JObj lim)
          \<and> map_of lim ''remaining'' = Some (JNum 1)
          \<and> map_of lim ''max_concurrency'' = Some (JNum 1))"
proof -
  let ?lim = "[(''total'', JNum 1), (''remaining'', JNum 1), (''reset_after'', JNum 14400000),
               (''max_concurrency'', JNum 1)]"
  let ?base = "[(''shards'', JNum 1), (''session_start_limit'', JObj ?lim)]"
  let ?r = "spread ?base (JObj res)"
  have rev: "map_of (rev res) = map_of res"
    using assms(3) by (rule map_of_rev_distinct)
  have m: "map_of ?r = map_of ?base ++ map_of res"
    by (simp only: map_of_spread ownEntries.simps rev)
  have 1: "patchRequest client createDefaults original options = Inr (JObj ?r)"
    using assms(1,2) by (simp add: patchRequest_gatewayBot gatewayBot_post_def)
  have 2: "\<forall>k v. map_of res k = Some v \<longrightarrow> map_of ?r k = Some v"
    by (simp add: m map_add_def)
  have 3: "map_of res ''shards'' = None \<longrightarrow> map_of ?r ''shards'' = Some (JNum 1)"
    by (simp add: m map_add_def)
  have 4: "map_of res ''session_start_limit'' = None \<longrightarrow>
          map_of ?r ''session_start_limit'' = Some (JObj ?lim)
          \<and> map_of ?lim ''remaining'' = Some (JNum 1)
          \<and> map_of ?lim ''max_concurrency'' = Some (JNum 1)"
    by (simp add: m map_add_def)
  show ?thesis
    by (rule exI [of _ ?r], rule exI [of _ ?lim]) (intro conjI 1 2 3 4)
qed

theorem gatewayBot_request_end_to_end_witness:
  "patchRequest \<lparr>userAgent_value = None\<rparr> createDefaults gateway_info_server
      \<lparr>fullRoute = ''/gateway/bot'', request_method = ''GET'', body = None\<rparr>
   = Inr (JObj [(''shards'', JNum 1),
                (''session_start_limit'',
                   JObj [(''total'', JNum 1), (''remaining'', JNum 1),
                         (''reset_after'', JNum 14400000), (''max_concurrency'', JNum 1)]),
                (''url'', JStr ''wss://gateway.discord.gg'')])"
proof -
  let ?o = "\<lparr>fullRoute = ''/gateway/bot'', request_method = ''GET'', body = None\<rparr>"
  let ?res = "[(''url'', JStr ''wss://gateway.discord.gg'')]"
  have "\<exists>r lim. patchRequest \<lparr>userAgent_value = None\<rparr> createDefaults gateway_info_server ?o
          = Inr (JObj r)
     \<and> (\<forall>k v. map_of ?res k = Some v \<longrightarrow> map_of r k = Some v)
     \<and> (map_of ?res ''shards'' = None \<longrightarrow> map_of r ''shards'' = Some (JNum 1))
     \<and> (map_of ?res ''session_start_limit'' = None \<longrightarrow>
          map_of r ''session_start_limit'' = Some (JObj lim)
          \<and> map_of lim ''remaining'' = Some (JNum 1)
          \<and> map_of lim ''max_concurrency'' = Some (JNum 1))"
    by (rule gatewayBot_request_end_to_end)
       (simp_all add: Routes_gatewayBot_def Routes_gateway_def gateway_info_server_def)
  then show ?thesis
    by (simp add: patchRequest_def redirected_def applyPre_def findPatch_def createDefaults_def
      DEFAULT_ROUTE_PATCHES_def Routes_gateway_def Routes_gatewayBot_def Let_def gateway_info_server_def
      gatewayBot_post_def spread_def)
qed

text \<open>
  Claim C8. When the \<open>pre\<close> callback of the patch found for the route throws, the
  wrapped request function fails with that exception; likewise when the \<open>post\<close>
  callback throws on the response, and when the \<open>resolve\<close> callback throws in the
  wrapper of \<open>resolveRequest\<close> (also seen through the user-agent wrapper around it).
\<close>

theorem patch_callback_exceptions_propagate:
  "(findPatch routes (fullRoute options) = Some patch \<and> pre patch = Some f
      \<and> f client (redirected (Some patch) options) = Inl e
     \<longrightarrow> patchRequest client routes request options = Inl e)
   \<and> (findPatch routes (fullRoute options) = Some patch
      \<and> applyPre client (Some patch) (redirected (Some patch) options) = Inr options2
      \<and> request options2 = Inr result
      \<and> post patch = Some g \<and> g client options2 result = Inl e
     \<longrightarrow> patchRequest client routes request options = Inl e)
   \<and> (findPatch routes (fullRoute options) = Some patch
      \<and> resolver options st = Inr (resolved, st1)
      \<and> resolve patch = Some h \<and> h client options resolved st1 = Inl e
     \<longrightarrow> patchResolveRequest client routes resolver options st = Inl e
       \<and> resolveRequest_installed client routes userAgent resolver options st = Inl e)"
  by (simp add: patchRequest_def applyPre_def patchResolveRequest_def
      resolveRequest_installed_def wrapResolveRequest_def)

theorem patch_callback_exceptions_propagate_witness:
  "patchRequest () [(''/channels/{:id}/'', failing_patch)] (\<lambda>req. Inr JNull)
      \<lparr>fullRoute = ''/channels/1/'', request_method = ''DELETE'', body = None\<rparr>
     = Inl (Thrown ''pre'')
   \<and> patchRequest () [(''/channels/{:id}/'', failing_patch)] (\<lambda>req. Inr JNull)
      \<lparr>fullRoute = ''/channels/1/'', request_method = ''GET'', body = None\<rparr>
     = Inl (Thrown ''post'')
   \<and> resolveRequest_installed () [(''/channels/{:id}/'', failing_patch)] ''agent''
      (resolve_with (HeaderObject []))
      \<lparr>fullRoute = ''/channels/1/'', request_method = ''GET'', body = None\<rparr> []
     = Inl (Thrown ''resolve'')"
proof -
  let ?routes = "[(''/channels/{:id}/'', failing_patch)]"
  let ?del = "\<lparr>fullRoute = ''/channels/1/'', request_method = ''DELETE'', body = None\<rparr>"
  let ?get = "\<lparr>fullRoute = ''/channels/1/'', request_method = ''GET'', body = None\<rparr>"
  let ?orig = "\<lambda>req :: RestRequest. Inr JNull :: error + json"
  have m: "testParameterizedMatch ''/channels/1/'' ''/channels/{:id}/'' = Some True"
    by (simp add: match_defs)
  have fp: "findPatch ?routes ''/channels/1/'' = Some failing_patch"
    by (simp add: findPatch_def m)
  note inst = patch_callback_exceptions_propagate
    [where routes = ?routes and patch = failing_patch and client = "()" and request = ?orig
       and result = JNull and resolver = "resolve_with (HeaderObject [])" and st = "[]"
       and userAgent = "''agent''"]
  have a: "patchRequest () ?routes ?orig ?del = Inl (Thrown ''pre'')"
    using inst [where options = ?del and e = "Thrown ''pre''" and ?options2.0 = ?del
        and f = "\<lambda>client req. if request_method req = ''DELETE'' then Inl (Thrown ''pre'') else Inr req"
        and g = "\<lambda>client req res. Inl (Thrown ''post'')"
        and h = "\<lambda>client req resolved st. Inl (Thrown ''resolve'')"
        and resolved = "\<lparr>url = [], headers = None, fetch_method = [], fetch_body = None\<rparr>"
        and ?st1.0 = "[]"] fp
    by (simp add: failing_patch_def redirected_def)
  have b: "patchRequest () ?routes ?orig ?get = Inl (Thrown ''post'')"
    using inst [where options = ?get and e = "Thrown ''post''" and ?options2.0 = ?get
        and f = "\<lambda>client req. if request_method req = ''DELETE'' then Inl (Thrown ''pre'') else Inr req"
        and g = "\<lambda>client req res. Inl (Thrown ''post'')"
        and h = "\<lambda>client req resolved st. Inl (Thrown ''resolve'')"
        and resolved = "\<lparr>url = [], headers = None, fetch_method = [], fetch_body = None\<rparr>"
        and ?st1.0 = "[]"] fp
    by (simp add: failing_patch_def redirected_def applyPre_def)
  have c: "resolveRequest_installed () ?routes ''agent'' (resolve_with (HeaderObject [])) ?get []
             = Inl (Thrown ''resolve'')"
    using inst [where options = ?get and e = "Thrown ''resolve''" and ?options2.0 = ?get
        and f = "\<lambda>client req. if request_method req = ''DELETE'' then Inl (Thrown ''pre'') else Inr req"
        and g = "\<lambda>client req res. Inl (Thrown ''post'')"
        and h = "\<lambda>client req resolved st. Inl (Thrown ''resolve'')"
        and resolved = "\<lparr>url = ''https://discord.com/api/v10/channels/1/'', headers = Some 0,
                          fetch_method = ''GET'', fetch_body = None\<rparr>"
        and ?st1.0 = "[HeaderObject []]"] fp
    by (simp add: failing_patch_def resolve_with_def alloc_def)
  from a b c show ?thesis by blast
qed

lemma findPatch_users:
  assumes "testParameterizedMatch route ''/users/{:id}/'' = Some True"
  shows "findPatch (createDefaults :: 'c routes) route
     = Some \<lparr>redirect = None, pre = None, post = None, resolve = Some users_resolve\<rparr>"
proof -
  have nb: "route \<noteq> ''/gateway/bot''"
    using assms by (auto simp: match_defs)
  have g: "testParameterizedMatch route ''/gateway/bot'' = Some False"
    by (simp add: testParameterizedMatch_def param_at_def startsWith_def)
  show ?thesis
    using assms nb g
    by (simp add: findPatch_def createDefaults_def DEFAULT_ROUTE_PATCHES_def Routes_gatewayBot_def)
qed

text \<open>
  Claim C10. For a route that matches \<open>/users/{:id}/\<close>, when the resolved request's
  header value is an array of strings, or an object without an \<open>Authorization\<close> key,
  the default resolve callback raises a TypeError and the whole resolve operation
  fails with it.
\<close>

theorem users_resolve_throws_TypeError:
  fixes client :: 'c
  assumes "testParameterizedMatch (fullRoute options) ''/users/{:id}/'' = Some True"
    and "resolver options st = Inr (resolved, st1)"
    and "emitted_headers (resolved, st1) = Some (HeaderArray hs)
         \<or> emitted_headers (resolved, st1) = Some (HeaderObject ob)
            \<and> map_of ob ''Authorization'' = None"
  shows "patchResolveRequest client createDefaults resolver options st = Inl TypeError
     \<and> resolveRequest_installed client createDefaults userAgent resolver options st
         = Inl TypeError"
proof -
  have u: "users_resolve client options resolved st1 = Inl TypeError"
    using assms(3)
    by (auto simp: users_resolve_def emitted_headers_def split: option.splits)
  have fp: "findPatch (createDefaults :: 'c routes) (fullRoute options)
     = Some \<lparr>redirect = None, pre = None, post = None, resolve = Some users_resolve\<rparr>"
    using assms(1) by (rule findPatch_users)
  have "patchResolveRequest client createDefaults resolver options st = Inl TypeError"
    using fp assms(2) u
    by (simp add: patchResolveRequest_def)
  then show ?thesis
    by (simp add: resolveRequest_installed_def wrapResolveRequest_def)
qed

theorem users_resolve_throws_TypeError_witness:
  "resolveRequest_installed \<lparr>userAgent_value = None\<rparr> createDefaults DEFAULT_USER_AGENT
      (resolve_with (HeaderObject [(''Content-Type'', ''application/json'')]))
      \<lparr>fullRoute = ''/users/42/'', request_method = ''GET'', body = None\<rparr> []
     = Inl TypeError
   \<and> resolveRequest_installed \<lparr>userAgent_value = None\<rparr> createDefaults DEFAULT_USER_AGENT
      (resolve_with (HeaderArray [''Authorization: Bearer xyz'']))
      \<lparr>fullRoute = ''/users/42/'', request_method = ''GET'', body = None\<rparr> []
     = Inl TypeError"
proof -
  let ?o = "\<lparr>fullRoute = ''/users/42/'', request_method = ''GET'', body = None\<rparr>"
  let ?res = "\<lparr>url = ''https://discord.com/api/v10/users/42/'', headers = Some 0,
               fetch_method = ''GET'', fetch_body = None\<rparr>"
  have m: "testParameterizedMatch (fullRoute ?o) ''/users/{:id}/'' = Some True"
    by (simp add: match_defs)
  have a: "resolveRequest_installed \<lparr>userAgent_value = None\<rparr> createDefaults DEFAULT_USER_AGENT
      (resolve_with (HeaderObject [(''Content-Type'', ''application/json'')])) ?o []
     = Inl TypeError"
    using users_resolve_throws_TypeError
      [where options = ?o and resolver = "resolve_with (HeaderObject [(''Content-Type'', ''application/json'')])"
         and st = "[]" and resolved = ?res
         and ?st1.0 = "[HeaderObject [(''Content-Type'', ''application/json'')]]"
         and ob = "[(''Content-Type'', ''application/json'')]" and hs = "[]"
         and client = "\<lparr>userAgent_value = None\<rparr>" and userAgent = DEFAULT_USER_AGENT] m
    by (simp add: resolve_with_def alloc_def emitted_headers_def deref_def)
  have b: "resolveRequest_installed \<lparr>userAgent_value = None\<rparr> createDefaults DEFAULT_USER_AGENT
      (resolve_with (HeaderArray [''Authorization: Bearer xyz''])) ?o []
     = Inl TypeError"
    using users_resolve_throws_TypeError
      [where options = ?o and resolver = "resolve_with (HeaderArray [''Authorization: Bearer xyz''])"
         and st = "[]" and resolved = ?res
         and ?st1.0 = "[HeaderArray [''Authorization: Bearer xyz'']]"
         and ob = "[]" and hs = "[''Authorization: Bearer xyz'']"
         and client = "\<lparr>userAgent_value = None\<rparr>" and userAgent = DEFAULT_USER_AGENT] m
    by (simp add: resolve_with_def alloc_def emitted_headers_def deref_def)
  from a b show ?thesis by blast
qed

lemmas resolve_defs = resolveRequest_installed_def wrapResolveRequest_def
  patchResolveRequest_def normalizeStep_def injectStep_def users_resolve_def stripBearer_def
  deref_def alloc_def emitted_headers_def findPatch_def createDefaults_def
  DEFAULT_ROUTE_PATCHES_def Routes_gatewayBot_def Routes_gateway_def

text \<open>
  The object path of the user-agent wrapper. When the header value that the REST
  wrapper returns is an object, the resolved request that comes back carries that
  object with \<open>User-Agent\<close> set to the configured value and every other header as it
  was.
\<close>

lemma user_agent_injected_into_header_object:
  assumes "patchResolveRequest client routes resolver options st = Inr (resolved, st1)"
    and "headers resolved = Some r"
    and "deref st1 r = Some (HeaderObject ob)"
  shows "\<exists>st2 ob'.
       resolveRequest_installed client routes userAgent resolver options st = Inr (resolved, st2)
     \<and> emitted_headers (resolved, st2) = Some (HeaderObject ob')
     \<and> map_of ob' ''User-Agent'' = Some userAgent
     \<and> (\<forall>k. k \<noteq> ''User-Agent'' \<longrightarrow> map_of ob' k = map_of ob k)"
proof -
  let ?ob = "AList.update ''User-Agent'' userAgent ob"
  let ?st2 = "st1[r := HeaderObject ?ob]"
  from assms(3) have r: "r < length st1"
    by (simp add: deref_def split: if_splits)
  have 1: "resolveRequest_installed client routes userAgent resolver options st
             = Inr (resolved, ?st2)"
    using assms
    by (simp add: resolveRequest_installed_def wrapResolveRequest_def normalizeStep_def
        injectStep_def)
  have 2: "emitted_headers (resolved, ?st2) = Some (HeaderObject ?ob)"
    using assms(2) r by (simp add: emitted_headers_def deref_def)
  have 3: "map_of ?ob ''User-Agent'' = Some userAgent"
    by (simp add: update_conv')
  have 4: "\<forall>k. k \<noteq> ''User-Agent'' \<longrightarrow> map_of ?ob k = map_of ob k"
    by (simp add: update_conv')
  from 1 2 3 4 show ?thesis by blast
qed

lemma user_agent_injected_into_header_object_example:
  "resolveRequest_installed \<lparr>userAgent_value = None\<rparr> createDefaults ''agent''
      (resolve_with (HeaderObject [(''Authorization'', ''Bearer xyz''), (''Accept'', ''*/*'')]))
      \<lparr>fullRoute = ''/users/42/'', request_method = ''GET'', body = None\<rparr> []
     = Inr (\<lparr>url = ''https://discord.com/api/v10/users/42/'', headers = Some 0,
             fetch_method = ''GET'', fetch_body = None\<rparr>,
            [HeaderObject [(''Authorization'', ''xyz''), (''Accept'', ''*/*''),
                           (''User-Agent'', ''agent'')]])"
proof -
  let ?o = "\<lparr>fullRoute = ''/users/42/'', request_method = ''GET'', body = None\<rparr>"
  let ?res = "\<lparr>url = ''https://discord.com/api/v10/users/42/'', headers = Some 0,
               fetch_method = ''GET'', fetch_body = None\<rparr>"
  let ?rv = "resolve_with (HeaderObject [(''Authorization'', ''Bearer xyz''), (''Accept'', ''*/*'')])"
  let ?ob = "[(''Authorization'', ''xyz''), (''Accept'', ''*/*'')]"
  have p: "patchResolveRequest \<lparr>userAgent_value = None\<rparr> createDefaults ?rv ?o []
             = Inr (?res, [HeaderObject ?ob])"
    by (simp add: resolve_defs resolve_with_def match_defs)
  have "\<exists>st2 ob'.
       resolveRequest_installed \<lparr>userAgent_value = None\<rparr> createDefaults ''agent'' ?rv ?o []
         = Inr (?res, st2)
     \<and> emitted_headers (?res, st2) = Some (HeaderObject ob')
     \<and> map_of ob' ''User-Agent'' = Some ''agent''
     \<and> (\<forall>k. k \<noteq> ''User-Agent'' \<longrightarrow> map_of ob' k = map_of ?ob k)"
    using user_agent_injected_into_header_object
      [where client = "\<lparr>userAgent_value = None\<rparr>" and routes = createDefaults and resolver = ?rv
         and options = ?o and st = "[]" and resolved = ?res and ?st1.0 = "[HeaderObject ?ob]"
         and r = 0 and ob = ?ob and userAgent = "''agent''"] p
    by (simp add: deref_def)
  then show ?thesis
    by (simp add: resolve_defs resolve_with_def match_defs)
qed

text \<open>
  The list path. The wrapper builds the object from the list and sets \<open>User-Agent\<close>
  on it, but the object is held by the local variable only: whenever the wrapper
  returns, the resolved request still refers to the list it arrived with.
\<close>

lemma header_list_never_written_back:
  assumes "patchResolveRequest client routes resolver options st = Inr (resolved, st1)"
    and "headers resolved = Some r"
    and "deref st1 r = Some (HeaderArray hs)"
    and "resolveRequest_installed client routes userAgent resolver options st = Inr rs"
  shows "fst rs = resolved \<and> emitted_headers rs = Some (HeaderArray hs)"
proof -
  from assms(3) have r: "r < length st1" and v: "st1 ! r = HeaderArray hs"
    by (simp_all add: deref_def split: if_splits)
  from assms(1,2,3,4) obtain ob where ob: "normalizeHeaders hs = Inr ob"
    and rs: "rs = (resolved,
        (st1 @ [HeaderObject ob])
          [length st1 := HeaderObject (AList.update ''User-Agent'' userAgent ob)])"
    by (auto simp: resolveRequest_installed_def wrapResolveRequest_def normalizeStep_def
        injectStep_def alloc_def deref_def split: sum.splits)
  from r v have "((st1 @ [HeaderObject ob])
          [length st1 := HeaderObject (AList.update ''User-Agent'' userAgent ob)]) ! r
        = HeaderArray hs"
    by (simp add: nth_append)
  with r rs assms(2) show ?thesis
    by (simp add: emitted_headers_def deref_def)
qed

text \<open>
  Claim C2. A resolved request whose headers arrive as a list of \<open>"Name: value"\<close>
  strings should leave the user-agent wrapper with a name-to-value mapping that holds
  the \<open>User-Agent\<close> entry. The code misses this: for the list
  \<open>["Content-Type: application/json", "Authorization: Bearer xyz"]\<close> on the route
  \<open>/gateway\<close>, the request that comes back still carries the list, without a
  \<open>User-Agent\<close> entry, and the object with the three entries sits in the store with
  nothing referring to it.
\<close>

theorem header_list_request_keeps_list:
  "resolveRequest_installed \<lparr>userAgent_value = None\<rparr> createDefaults ''agent''
      (resolve_with (HeaderArray [''Content-Type: application/json'', ''Authorization: Bearer xyz'']))
      \<lparr>fullRoute = ''/gateway'', request_method = ''GET'', body = None\<rparr> []
     = Inr (\<lparr>url = ''https://discord.com/api/v10/gateway'', headers = Some 0,
             fetch_method = ''GET'', fetch_body = None\<rparr>,
            [HeaderArray [''Content-Type: application/json'', ''Authorization: Bearer xyz''],
             HeaderObject [(''Content-Type'', ''application/json''),
                           (''Authorization'', ''Bearer xyz''), (''User-Agent'', ''agent'')]])
   \<and> emitted_headers
        (\<lparr>url = ''https://discord.com/api/v10/gateway'', headers = Some 0,
          fetch_method = ''GET'', fetch_body = None\<rparr>,
         [HeaderArray [''Content-Type: application/json'', ''Authorization: Bearer xyz''],
          HeaderObject [(''Content-Type'', ''application/json''),
                        (''Authorization'', ''Bearer xyz''), (''User-Agent'', ''agent'')]])
     = Some (HeaderArray [''Content-Type: application/json'', ''Authorization: Bearer xyz''])"
  by (simp add: resolve_defs resolve_with_def header_defs match_defs)

end
